theory Spec2Isabelle
  imports Complex_Main
begin

section \<open>Data model\<close>

text \<open>
  Addresses, RPC endpoints and rejection reasons are JavaScript strings. A value that may
  be \<^verbatim>\<open>undefined\<close> at run time (an optional field, \<^verbatim>\<open>process.env.X\<close>) is an
  option, \<open>None\<close> standing for \<^verbatim>\<open>undefined\<close>. A JavaScript number is a type
  parameter \<open>'n\<close> with \<open>0\<close> and \<open>+\<close>; a promise's outcome is a sum, \<open>Inl\<close> the
  rejection reason and \<open>Inr\<close> the value.
\<close>

type_synonym Address = string
type_synonym reason = string

record ChainData =
  instances :: "Address list option"
  multisig :: "Address option"

record Service =
  hash :: string
  chain_data :: ChainData

record Wallet =
  address :: "Address option"

text \<open>
  A template literal \<^verbatim>\<open>`${x}`\<close> converts its argument to a string: a string stays as
  it is, \<^verbatim>\<open>undefined\<close> becomes the nine characters \<^verbatim>\<open>undefined\<close>.
\<close>

definition template :: "string option \<Rightarrow> string" where
  "template x = (case x of None \<Rightarrow> ''undefined'' | Some s \<Rightarrow> s)"

text \<open>
  \<^verbatim>\<open>!x\<close> for \<^verbatim>\<open>x: string | undefined\<close>: true for \<^verbatim>\<open>undefined\<close> and for the
  empty string.
\<close>

definition falsy :: "string option \<Rightarrow> bool" where
  "falsy x = (case x of None \<Rightarrow> True | Some s \<Rightarrow> s = [])"

text \<open>
  \<^verbatim>\<open>getAddress\<close> is the function imported from \<^verbatim>\<open>ethers/lib/utils\<close>. The wallet
  provider never calls it; it only tests the function object itself, which is truthy.
\<close>

definition getAddress_truthy :: bool where
  "getAddress_truthy = True"

section \<open>Multicall service\<close>

text \<open>
  The calls handed to the multicall provider: \<^verbatim>\<open>multicallContract.getEthBalance(address)\<close>
  and \<^verbatim>\<open>multicallContract.call(target, signature, args)\<close>.
\<close>

datatype ContractCall =
    MulticallGetEthBalance Address
  | MulticallCall Address string "Address list"

text \<open>
  \<^verbatim>\<open>addresses[index]\<close> used as a computed property key: past the end of the array the
  read gives \<^verbatim>\<open>undefined\<close>, and the key is the string \<^verbatim>\<open>undefined\<close>.
\<close>

definition keyAt :: "Address list \<Rightarrow> nat \<Rightarrow> string" where
  "keyAt addresses index =
     (if index < length addresses then addresses ! index else ''undefined'')"

definition ethCallData :: "Address list \<Rightarrow> ContractCall list" where
  "ethCallData addresses = map (\<lambda>address. MulticallGetEthBalance address) addresses"

text \<open>
  \<^verbatim>\<open>multicallContract.call(target, signature, args)\<close>. The \<^verbatim>\<open>Contract\<close> object of
  ethers-multicall defines one method for each view or pure function of the ABI it is built
  from; \<open>methods\<close> are the names of these methods. Calling a property the object does not
  have throws a \<^verbatim>\<open>TypeError\<close>.
\<close>

definition contractCall ::
  "string list \<Rightarrow> Address \<Rightarrow> string \<Rightarrow> Address list \<Rightarrow> reason + ContractCall" where
  "contractCall methods target signature args =
     (if ''call'' \<in> set methods then Inr (MulticallCall target signature args)
      else Inl ''TypeError: multicallContract.call is not a function'')"

text \<open>\<^verbatim>\<open>Array.prototype.map\<close> with a callback that may throw: the first throw ends it.\<close>

fun mapThrowing :: "('a \<Rightarrow> reason + 'b) \<Rightarrow> 'a list \<Rightarrow> reason + 'b list" where
  "mapThrowing f [] = Inr []"
| "mapThrowing f (x # xs) =
     (case f x of
        Inl e \<Rightarrow> Inl e
      | Inr y \<Rightarrow> (case mapThrowing f xs of Inl e \<Rightarrow> Inl e | Inr ys \<Rightarrow> Inr (y # ys)))"

definition erc20CallData :: "string list \<Rightarrow> Address \<Rightarrow> Address list \<Rightarrow> reason + ContractCall list" where
  "erc20CallData methods contractAddress addresses =
     mapThrowing
       (\<lambda>address. contractCall methods contractAddress ''balanceOf(address):(uint256)'' [address])
       addresses"

text \<open>
  The reducer of both functions, \<^verbatim>\<open>({...acc, [addresses[index]]: decode(balance)})\<close>, and
  the reduction from \<^verbatim>\<open>{}\<close> over the response with its indices.
\<close>

definition storeBalance ::
  "Address list \<Rightarrow> ('b \<Rightarrow> 'n) \<Rightarrow> (Address \<rightharpoonup> 'n) \<Rightarrow> 'b \<times> nat \<Rightarrow> (Address \<rightharpoonup> 'n)" where
  "storeBalance addresses decode acc p =
     (case p of (bal, index) \<Rightarrow> acc(keyAt addresses index \<mapsto> decode bal))"

definition collectBalances ::
  "Address list \<Rightarrow> ('b \<Rightarrow> 'n) \<Rightarrow> 'b list \<Rightarrow> (Address \<rightharpoonup> 'n)" where
  "collectBalances addresses decode responseData =
     foldl (storeBalance addresses decode) Map.empty
       (zip responseData [0..<length responseData])"

text \<open>
  \<^verbatim>\<open>getEthBalances\<close>. The libraries are parameters:
  \<open>multicallAll rpc chainId callData\<close> is the outcome of \<^verbatim>\<open>multicallProvider.all(callData)\<close>
  for the provider built on \<open>rpc\<close> with chain id 100; \<open>formatEther\<close>, \<open>formatUnits\<close>
  and \<open>parseFloat\<close> are the ethers and JavaScript functions; \<open>'b\<close> is \<^verbatim>\<open>BigNumber\<close>.
  \<^verbatim>\<open>.then\<close> runs its callback on a fulfilled outcome and passes a rejection on.
\<close>

definition getEthBalances ::
  "(string \<Rightarrow> nat \<Rightarrow> ContractCall list \<Rightarrow> reason + 'b list) \<Rightarrow> ('b \<Rightarrow> string) \<Rightarrow>
     (string \<Rightarrow> 'n) \<Rightarrow> Address list \<Rightarrow> string \<Rightarrow> reason + (Address \<rightharpoonup> 'n)" where
  "getEthBalances multicallAll formatEther parseFloat addresses rpc =
     (case multicallAll rpc 100 (ethCallData addresses) of
        Inl e \<Rightarrow> Inl e
      | Inr responseData \<Rightarrow>
          Inr (collectBalances addresses (\<lambda>balance. parseFloat (formatEther balance))
                 responseData))"

text \<open>
  In \<^verbatim>\<open>getErc20Balances\<close>, an async function, a throw while \<^verbatim>\<open>callData\<close> is built
  rejects the returned promise before any request is made.
\<close>

definition getErc20Balances ::
  "string list \<Rightarrow> (string \<Rightarrow> nat \<Rightarrow> ContractCall list \<Rightarrow> reason + 'b list) \<Rightarrow>
     ('b \<Rightarrow> nat \<Rightarrow> string) \<Rightarrow> (string \<Rightarrow> 'n) \<Rightarrow> Address list \<Rightarrow> string \<Rightarrow> Address \<Rightarrow>
     reason + (Address \<rightharpoonup> 'n)" where
  "getErc20Balances methods multicallAll formatUnits parseFloat addresses rpc contractAddress =
     (case erc20CallData methods contractAddress addresses of
        Inl e \<Rightarrow> Inl e
      | Inr callData \<Rightarrow>
          (case multicallAll rpc 100 callData of
             Inl e \<Rightarrow> Inl e
           | Inr r \<Rightarrow>
               Inr (collectBalances addresses (\<lambda>balance. parseFloat (formatUnits balance 18))
                      r)))"

section \<open>ServicesProvider\<close>

subsection \<open>The derived address list\<close>

text \<open>
  \<^verbatim>\<open>isAddress\<close> of \<^verbatim>\<open>ethers/lib/utils\<close> is a parameter. The inner reducer:
  \<^verbatim>\<open>isAddress(`${instance}`) ? acc.concat(instance) : acc\<close>.
\<close>

definition pushValidInstance ::
  "(string \<Rightarrow> bool) \<Rightarrow> Address option list \<Rightarrow> Address \<Rightarrow> Address option list" where
  "pushValidInstance isAddress acc instance =
     (if isAddress (template (Some instance)) then acc @ [Some instance] else acc)"

text \<open>
  The outer reducer: the valid instances of \<^verbatim>\<open>instances ?? []\<close> are pushed, then
  \<^verbatim>\<open>multisig!\<close> when \<^verbatim>\<open>isAddress(`${multisig}`)\<close>. The test reads the template
  string and the push takes the field as it is, so the list's elements are option values.
\<close>

definition collectService ::
  "(string \<Rightarrow> bool) \<Rightarrow> Address option list \<Rightarrow> Service \<Rightarrow> Address option list" where
  "collectService isAddress acc svc =
     (let acc1 = acc @ foldl (pushValidInstance isAddress) []
                         (case instances (chain_data svc) of None \<Rightarrow> [] | Some xs \<Rightarrow> xs)
      in if isAddress (template (multisig (chain_data svc)))
         then acc1 @ [multisig (chain_data svc)] else acc1)"

definition serviceAddresses :: "(string \<Rightarrow> bool) \<Rightarrow> Service list \<Rightarrow> Address option list" where
  "serviceAddresses isAddress services = foldl (collectService isAddress) [] services"

subsection \<open>Provider state and its timers\<close>

text \<open>
  The three \<^verbatim>\<open>useState\<close> cells; \<^verbatim>\<open>DeploymentStatus\<close> is a numeric enum. The delays
  are the second arguments of the two \<^verbatim>\<open>useInterval\<close> calls,
  \<^verbatim>\<open>services.length ? 5000 : null\<close> and \<^verbatim>\<open>hasInitialLoaded ? 5000 : null\<close>; \<open>None\<close>
  is \<^verbatim>\<open>null\<close>, which disables the timer.
\<close>

record ServicesState =
  services :: "Service list"
  serviceStatus :: "nat option"
  hasInitialLoaded :: bool

definition initialServices :: ServicesState where
  "initialServices = \<lparr>services = [], serviceStatus = None, hasInitialLoaded = False\<rparr>"

definition statusDelay :: "ServicesState \<Rightarrow> nat option" where
  "statusDelay st = (if length (services st) \<noteq> 0 then Some 5000 else None)"

definition servicesDelay :: "ServicesState \<Rightarrow> nat option" where
  "servicesDelay st = (if hasInitialLoaded st then Some 5000 else None)"

text \<open>
  What changes the state. \<open>SetServices data\<close> is \<^verbatim>\<open>setServices(data)\<close>: the callback of
  \<^verbatim>\<open>updateServicesState\<close>, or a consumer of the context, which exposes the setter.
  \<open>SetHasInitialLoaded\<close> is the later callback \<^verbatim>\<open>() => setHasInitialLoaded(true)\<close> of the
  mount effect. \<open>StatusTick outcome\<close> is a period of the status timer, with the outcome of
  \<^verbatim>\<open>getDeployment(services[0].hash)\<close>; \<open>ServicesTick outcome\<close> a period of the list
  timer, with the outcome of \<^verbatim>\<open>getServices()\<close>. A timer whose delay is \<^verbatim>\<open>null\<close> runs
  nothing. A rejected call leaves the state as it is, and so does the read of
  \<^verbatim>\<open>services[0].hash\<close> on an empty list, which throws inside the async callback.
\<close>

datatype event =
    SetServices "Service list"
  | SetHasInitialLoaded
  | StatusTick "reason + nat"
  | ServicesTick "reason + Service list"

fun step :: "ServicesState \<Rightarrow> event \<Rightarrow> ServicesState" where
  "step st (SetServices data) = st\<lparr>services := data\<rparr>"
| "step st SetHasInitialLoaded = st\<lparr>hasInitialLoaded := True\<rparr>"
| "step st (StatusTick outcome) =
     (case statusDelay st of
        None \<Rightarrow> st
      | Some _ \<Rightarrow>
          (case services st of
             [] \<Rightarrow> st
           | s # _ \<Rightarrow>
               (case outcome of
                  Inl _ \<Rightarrow> st
                | Inr status \<Rightarrow> st\<lparr>serviceStatus := Some status\<rparr>)))"
| "step st (ServicesTick outcome) =
     (case servicesDelay st of
        None \<Rightarrow> st
      | Some _ \<Rightarrow>
          (case outcome of
             Inl _ \<Rightarrow> st
           | Inr data \<Rightarrow> st\<lparr>services := data\<rparr>))"

definition run :: "ServicesState \<Rightarrow> event list \<Rightarrow> ServicesState" where
  "run st evs = foldl step st evs"

section \<open>WalletProvider\<close>

text \<open>
  The provider reads \<^verbatim>\<open>serviceAddresses\<close> from the services context; here it is the
  argument \<open>serviceAddrs\<close>.
\<close>

record 'n WalletState =
  wallets :: "Wallet list"
  balance :: "'n option"

text \<open>
  The two \<^verbatim>\<open>for ... of\<close> loops of \<^verbatim>\<open>updateBalance\<close>: each pushes the address
  unless \<^verbatim>\<open>!getAddress || !address\<close>. After the falsy test the pushed value is a
  non-empty string.
\<close>

definition pushIfPresent :: "Address list \<Rightarrow> Address option \<Rightarrow> Address list" where
  "pushIfPresent acc a =
     (if \<not> getAddress_truthy \<or> falsy a then acc
      else (case a of None \<Rightarrow> acc | Some s \<Rightarrow> acc @ [s]))"

definition walletsToCheck :: "Wallet list \<Rightarrow> Address option list \<Rightarrow> Address list" where
  "walletsToCheck ws serviceAddrs =
     foldl pushIfPresent (foldl (\<lambda>acc wallet. pushIfPresent acc (address wallet)) [] ws)
       serviceAddrs"

text \<open>
  The result objects of \<^verbatim>\<open>Promise.allSettled\<close>, which itself never rejects: its own
  outcome is always \<open>Inr\<close>.
\<close>

datatype 'n settled = Fulfilled 'n | Rejected reason

definition allSettled :: "(reason + 'n) list \<Rightarrow> reason + 'n settled list" where
  "allSettled promises =
     Inr (map (\<lambda>p. case p of Inl r \<Rightarrow> Rejected r | Inr v \<Rightarrow> Fulfilled v) promises)"

text \<open>The reducer of \<^verbatim>\<open>settledBalances.reduce(..., 0)\<close>.\<close>

definition addFulfilled :: "'n::plus \<Rightarrow> 'n settled \<Rightarrow> 'n" where
  "addFulfilled acc promise =
     (case promise of Fulfilled v \<Rightarrow> acc + v | Rejected _ \<Rightarrow> acc)"

text \<open>
  The calls of one refresh cycle: \<^verbatim>\<open>EthersService.getEthBalance(address, `${process.env.GNOSIS_RPC}`)\<close>
  for every collected address, in order. \<^verbatim>\<open>EthersService.getEthBalance\<close> is a
  parameter giving the outcome of the returned promise.
\<close>

definition balanceCalls :: "string option \<Rightarrow> Address list \<Rightarrow> (Address \<times> string) list" where
  "balanceCalls GNOSIS_RPC addrs = map (\<lambda>a. (a, template GNOSIS_RPC)) addrs"

definition balancePromises ::
  "(Address \<Rightarrow> string \<Rightarrow> reason + 'n) \<Rightarrow> string option \<Rightarrow> Address list \<Rightarrow> (reason + 'n) list" where
  "balancePromises getEthBalance GNOSIS_RPC addrs =
     map (\<lambda>(a, rpc). getEthBalance a rpc) (balanceCalls GNOSIS_RPC addrs)"

text \<open>
  \<^verbatim>\<open>updateBalance\<close>: an async function, so its result is the outcome of its promise
  together with the provider state it leaves. \<^verbatim>\<open>await\<close> is the case distinction on
  the awaited outcome.
\<close>

definition updateBalance ::
  "(Address \<Rightarrow> string \<Rightarrow> reason + 'n) \<Rightarrow> string option \<Rightarrow> Address option list \<Rightarrow>
     ('n::{plus,zero}) WalletState \<Rightarrow> reason + 'n WalletState" where
  "updateBalance getEthBalance GNOSIS_RPC serviceAddrs st =
     (case allSettled (balancePromises getEthBalance GNOSIS_RPC
                         (walletsToCheck (wallets st) serviceAddrs)) of
        Inl e \<Rightarrow> Inl e
      | Inr settledBalances \<Rightarrow>
          Inr (st\<lparr>balance := Some (foldl addFulfilled 0 settledBalances)\<rparr>))"

text \<open>The delay given to \<^verbatim>\<open>useInterval\<close>: \<^verbatim>\<open>wallets.length ? 5000 : null\<close>.\<close>

definition balanceDelay :: "'n WalletState \<Rightarrow> nat option" where
  "balanceDelay st = (if length (wallets st) \<noteq> 0 then Some 5000 else None)"

text \<open>
  A period of the balance timer. \<^verbatim>\<open>useInterval\<close> runs its callback only while the
  delay is not \<^verbatim>\<open>null\<close>. The result pairs the \<^verbatim>\<open>getEthBalance\<close> calls issued
  with the outcome of \<^verbatim>\<open>updateBalance\<close>.
\<close>

definition balanceTick ::
  "(Address \<Rightarrow> string \<Rightarrow> reason + 'n) \<Rightarrow> string option \<Rightarrow> Address option list \<Rightarrow>
     ('n::{plus,zero}) WalletState \<Rightarrow> (Address \<times> string) list \<times> (reason + 'n WalletState)" where
  "balanceTick getEthBalance GNOSIS_RPC serviceAddrs st =
     (case balanceDelay st of
        None \<Rightarrow> ([], Inr st)
      | Some _ \<Rightarrow>
          (balanceCalls GNOSIS_RPC (walletsToCheck (wallets st) serviceAddrs),
           updateBalance getEthBalance GNOSIS_RPC serviceAddrs st))"

text \<open>
  The poller over time. \<open>inFlight\<close> holds, oldest first, the \<^verbatim>\<open>getEthBalance\<close> calls of
  every cycle that has started and not yet settled. \<open>TimerFires\<close> is a firing of the
  interval timer: while the delay is not \<^verbatim>\<open>null\<close> it runs \<^verbatim>\<open>() => updateBalance()\<close>,
  which issues the calls of a new cycle at once and suspends at its \<^verbatim>\<open>await\<close>; the
  promise it returns is dropped. \<open>CycleSettles\<close> is the moment the calls of the oldest cycle
  in flight have all settled: \<^verbatim>\<open>updateBalance\<close> resumes and publishes its balance.
\<close>

record 'n Poller =
  provider :: "'n WalletState"
  inFlight :: "(Address \<times> string) list list"

datatype pollerEvent = TimerFires | CycleSettles

definition pollerStep ::
  "(Address \<Rightarrow> string \<Rightarrow> reason + 'n) \<Rightarrow> string option \<Rightarrow> Address option list \<Rightarrow>
     ('n::{plus,zero}) Poller \<Rightarrow> pollerEvent \<Rightarrow> 'n Poller" where
  "pollerStep getEthBalance GNOSIS_RPC serviceAddrs p ev =
     (case ev of
        TimerFires \<Rightarrow>
          (case balanceDelay (provider p) of
             None \<Rightarrow> p
           | Some _ \<Rightarrow>
               p\<lparr>inFlight := inFlight p @
                    [balanceCalls GNOSIS_RPC (walletsToCheck (wallets (provider p)) serviceAddrs)]\<rparr>)
      | CycleSettles \<Rightarrow>
          (case inFlight p of
             [] \<Rightarrow> p
           | calls # rest \<Rightarrow>
               p\<lparr>provider :=
                    (case updateBalance getEthBalance GNOSIS_RPC serviceAddrs (provider p) of
                       Inl _ \<Rightarrow> provider p
                     | Inr st' \<Rightarrow> st'),
                  inFlight := rest\<rparr>))"

definition pollerRun ::
  "(Address \<Rightarrow> string \<Rightarrow> reason + 'n) \<Rightarrow> string option \<Rightarrow> Address option list \<Rightarrow>
     ('n::{plus,zero}) Poller \<Rightarrow> pollerEvent list \<Rightarrow> 'n Poller" where
  "pollerRun getEthBalance GNOSIS_RPC serviceAddrs p evs =
     foldl (pollerStep getEthBalance GNOSIS_RPC serviceAddrs) p evs"

section \<open>Notions used in the statements\<close>

text \<open>
  Every address-valued string of a service list, in the order the reducers visit them: each
  service's instances, then its multisig when the field is present.
\<close>

definition candidateStrings :: "Service list \<Rightarrow> string list" where
  "candidateStrings svcs =
     concat (map (\<lambda>svc.
         (case instances (chain_data svc) of None \<Rightarrow> [] | Some xs \<Rightarrow> xs) @
         (case multisig (chain_data svc) of None \<Rightarrow> [] | Some m \<Rightarrow> [m]))
       svcs)"

text \<open>What one service adds to the derived list.\<close>

definition serviceContribution :: "(string \<Rightarrow> bool) \<Rightarrow> Service \<Rightarrow> Address option list" where
  "serviceContribution isAddress svc =
     map Some (filter isAddress
       (case instances (chain_data svc) of None \<Rightarrow> [] | Some xs \<Rightarrow> xs)) @
     (if isAddress (template (multisig (chain_data svc))) then [multisig (chain_data svc)]
      else [])"

text \<open>The option values that pass the falsy test, as strings, in order.\<close>

definition presentAddresses :: "Address option list \<Rightarrow> Address list" where
  "presentAddresses xs =
     List.map_filter
       (\<lambda>x. case x of None \<Rightarrow> None | Some s \<Rightarrow> if s = [] then None else Some s) xs"

text \<open>The values of the fulfilled outcomes, in order, and what one outcome adds to a sum.\<close>

definition fulfilledValues :: "(reason + 'n) list \<Rightarrow> 'n list" where
  "fulfilledValues outcomes =
     List.map_filter (\<lambda>p. case p of Inl _ \<Rightarrow> None | Inr v \<Rightarrow> Some v) outcomes"

definition contribution :: "(reason + 'n::zero) \<Rightarrow> 'n" where
  "contribution p = (case p of Inl _ \<Rightarrow> 0 | Inr v \<Rightarrow> v)"

section \<open>Sample collaborators\<close>

text \<open>
  Concrete values for the parameters, used where a statement is evaluated: three addresses,
  a format test accepting \<^verbatim>\<open>0x\<close> followed by 40 characters, a service, an RPC endpoint
  that rejects every call and one that answers from a table, a multicall provider that
  rejects and one that answers \<open>5, 6, ...\<close>, and a formatter writing \<open>b * decimals\<close>
  marks, which \<open>length\<close> reads back.
\<close>

definition addr1 :: Address where
  "addr1 = ''0x1111111111111111111111111111111111111111''"

definition addr2 :: Address where
  "addr2 = ''0x2222222222222222222222222222222222222222''"

definition addr3 :: Address where
  "addr3 = ''0x3333333333333333333333333333333333333333''"

definition shapeOk :: "string \<Rightarrow> bool" where
  "shapeOk s = (length s = 42 \<and> take 2 s = ''0x'')"

definition svcA :: Service where
  "svcA = \<lparr>hash = ''0xA'', chain_data = \<lparr>instances = Some [addr1], multisig = Some addr2\<rparr>\<rparr>"

definition rpcDown :: "Address \<Rightarrow> string \<Rightarrow> reason + real" where
  "rpcDown a rpc = Inl ''network error''"

definition rpcTable :: "Address \<Rightarrow> string \<Rightarrow> reason + real" where
  "rpcTable a rpc =
     (if a = addr1 then Inr 1.5
      else if a = addr2 then Inl ''network error''
      else if a = addr3 then Inr 2.5
      else Inl ''unknown address'')"

definition multicallDown :: "string \<Rightarrow> nat \<Rightarrow> ContractCall list \<Rightarrow> reason + nat list" where
  "multicallDown rpc chainId calls = Inl ''network error''"

definition multicallUp :: "string \<Rightarrow> nat \<Rightarrow> ContractCall list \<Rightarrow> reason + nat list" where
  "multicallUp rpc chainId calls = Inr [5..<5 + length calls]"

definition tally :: "nat \<Rightarrow> nat \<Rightarrow> string" where
  "tally b decimals = replicate (b * decimals) CHR ''1''"

text \<open>The view functions of the Multicall3 interface, and the same with a \<open>call\<close> method.\<close>

definition multicall3Methods :: "string list" where
  "multicall3Methods =
     [''getBasefee'', ''getBlockHash'', ''getBlockNumber'', ''getChainId'',
      ''getCurrentBlockCoinbase'', ''getCurrentBlockDifficulty'', ''getCurrentBlockGasLimit'',
      ''getCurrentBlockTimestamp'', ''getEthBalance'', ''getLastBlockHash'']"

definition methodsWithCall :: "string list" where
  "methodsWithCall = ''call'' # multicall3Methods"

section \<open>The derived address list\<close>

lemma foldl_pushValidInstance:
  "foldl (pushValidInstance isAddress) acc xs = acc @ map Some (filter isAddress xs)"
  by (induction xs arbitrary: acc) (simp_all add: pushValidInstance_def template_def)

lemma collectService_eq:
  "collectService isAddress acc svc = acc @ serviceContribution isAddress svc"
  by (simp add: collectService_def serviceContribution_def foldl_pushValidInstance Let_def)

lemma foldl_collectService:
  "foldl (collectService isAddress) acc svcs =
   acc @ concat (map (serviceContribution isAddress) svcs)"
  by (induction svcs arbitrary: acc) (simp_all add: collectService_eq)

lemma serviceContribution_valid:
  assumes "\<not> isAddress ''undefined''"
  shows "serviceContribution isAddress svc =
         map Some (filter isAddress
           ((case instances (chain_data svc) of None \<Rightarrow> [] | Some xs \<Rightarrow> xs) @
            (case multisig (chain_data svc) of None \<Rightarrow> [] | Some m \<Rightarrow> [m])))"
  using assms
  by (cases "multisig (chain_data svc)") (simp_all add: serviceContribution_def template_def)

lemma serviceAddresses_filter:
  assumes "\<not> isAddress ''undefined''"
  shows "serviceAddresses isAddress svcs = map Some (filter isAddress (candidateStrings svcs))"
proof -
  have "concat (map (serviceContribution isAddress) svcs) =
        map Some (filter isAddress (candidateStrings svcs))"
    using assms
    by (induction svcs) (simp_all add: candidateStrings_def serviceContribution_valid)
  then show ?thesis by (simp add: serviceAddresses_def foldl_collectService)
qed

text \<open>
  C3, amended. For a format test that rejects the string \<^verbatim>\<open>undefined\<close>, the derived list
  is every occurrence of a valid-format string among the instances and multisig fields, in
  input order, and nothing else: every invalid string is excluded and the set of results is
  exactly the set of valid strings. Occurrences are kept, not merged: the list is free of
  duplicates exactly when the valid occurrences of the input are.
\<close>

theorem serviceAddresses_valid_occurrences:
  assumes "\<not> isAddress ''undefined''"
  shows "serviceAddresses isAddress svcs =
           map Some (filter isAddress (candidateStrings svcs)) \<and>
         set (serviceAddresses isAddress svcs) =
           Some ` {a \<in> set (candidateStrings svcs). isAddress a} \<and>
         (distinct (serviceAddresses isAddress svcs) \<longleftrightarrow>
            distinct (filter isAddress (candidateStrings svcs)))"
proof -
  have eq: "serviceAddresses isAddress svcs =
              map Some (filter isAddress (candidateStrings svcs))"
    using assms by (rule serviceAddresses_filter)
  have "set (map Some (filter isAddress (candidateStrings svcs))) =
          Some ` {a \<in> set (candidateStrings svcs). isAddress a}"
    by auto
  moreover have "distinct (map Some (filter isAddress (candidateStrings svcs))) \<longleftrightarrow>
          distinct (filter isAddress (candidateStrings svcs))"
    by (simp add: distinct_map)
  ultimately show ?thesis using eq by simp
qed

theorem serviceAddresses_valid_occurrences_witness:
  "\<not> shapeOk ''undefined'' \<and>
   serviceAddresses shapeOk
     [\<lparr>hash = ''0xA'',
       chain_data = \<lparr>instances = Some [addr1, ''0x12''], multisig = Some addr2\<rparr>\<rparr>,
      \<lparr>hash = ''0xB'', chain_data = \<lparr>instances = None, multisig = None\<rparr>\<rparr>] =
     [Some addr1, Some addr2]"
proof -
  have h: "\<not> shapeOk ''undefined''" by (simp add: shapeOk_def)
  from serviceAddresses_valid_occurrences [of shapeOk "[\<lparr>hash = ''0xA'',
       chain_data = \<lparr>instances = Some [addr1, ''0x12''], multisig = Some addr2\<rparr>\<rparr>,
      \<lparr>hash = ''0xB'', chain_data = \<lparr>instances = None, multisig = None\<rparr>\<rparr>]"] h
  show ?thesis
    by (simp add: candidateStrings_def shapeOk_def addr1_def addr2_def)
qed

text \<open>
  The list is not deduplicated: a service whose multisig is also one of its instances
  yields the address twice.
\<close>

theorem serviceAddresses_keeps_duplicates:
  "serviceAddresses shapeOk
     [\<lparr>hash = ''0xA'', chain_data = \<lparr>instances = Some [addr1], multisig = Some addr1\<rparr>\<rparr>] =
     [Some addr1, Some addr1] \<and>
   \<not> distinct (serviceAddresses shapeOk
     [\<lparr>hash = ''0xA'', chain_data = \<lparr>instances = Some [addr1], multisig = Some addr1\<rparr>\<rparr>])"
  by (simp add: serviceAddresses_def collectService_def pushValidInstance_def template_def
        shapeOk_def addr1_def)

section \<open>The timers of the services provider\<close>

lemma services_step:
  "services (step st ev) \<noteq> [] \<Longrightarrow>
     services st \<noteq> [] \<or> (\<exists>d. d \<noteq> [] \<and> (ev = SetServices d \<or> ev = ServicesTick (Inr d)))"
  by (cases ev) (auto split: option.splits list.splits sum.splits)

lemma services_run:
  "services (run st evs) \<noteq> [] \<Longrightarrow>
     services st \<noteq> [] \<or>
     (\<exists>d. d \<noteq> [] \<and> (SetServices d \<in> set evs \<or> ServicesTick (Inr d) \<in> set evs))"
proof (induction evs rule: rev_induct)
  case Nil
  then show ?case by (simp add: run_def)
next
  case (snoc ev evs)
  from snoc.prems have "services (step (run st evs) ev) \<noteq> []" by (simp add: run_def)
  then have "services (run st evs) \<noteq> [] \<or>
      (\<exists>d. d \<noteq> [] \<and> (ev = SetServices d \<or> ev = ServicesTick (Inr d)))"
    by (rule services_step)
  with snoc.IH show ?case by auto
qed

text \<open>
  C4, amended. The deployment-status poll is scheduled exactly when the service list is
  non-empty; \<^verbatim>\<open>hasInitialLoaded\<close> is not consulted by it and gates the service-list poll
  only. The list starts empty, so in every run from the initial state the status poll is
  scheduled only after a non-empty list has been stored, by \<^verbatim>\<open>setServices\<close> or by a
  fulfilled list poll.
\<close>

theorem status_poll_gate:
  "(statusDelay st \<noteq> None \<longleftrightarrow> services st \<noteq> []) \<and>
   (servicesDelay st \<noteq> None \<longleftrightarrow> hasInitialLoaded st) \<and>
   statusDelay initialServices = None \<and>
   (statusDelay (run initialServices evs) \<noteq> None \<longrightarrow>
      (\<exists>d. d \<noteq> [] \<and> (SetServices d \<in> set evs \<or> ServicesTick (Inr d) \<in> set evs)))"
proof (intro conjI impI)
  show "statusDelay st \<noteq> None \<longleftrightarrow> services st \<noteq> []" by (simp add: statusDelay_def)
  show "servicesDelay st \<noteq> None \<longleftrightarrow> hasInitialLoaded st" by (simp add: servicesDelay_def)
  show "statusDelay initialServices = None" by (simp add: statusDelay_def initialServices_def)
next
  assume "statusDelay (run initialServices evs) \<noteq> None"
  then have "services (run initialServices evs) \<noteq> []"
    by (simp add: statusDelay_def split: if_splits)
  then have "services initialServices \<noteq> [] \<or>
     (\<exists>d. d \<noteq> [] \<and> (SetServices d \<in> set evs \<or> ServicesTick (Inr d) \<in> set evs))"
    by (rule services_run)
  then show "\<exists>d. d \<noteq> [] \<and> (SetServices d \<in> set evs \<or> ServicesTick (Inr d) \<in> set evs)"
    by (simp add: initialServices_def)
qed

theorem status_poll_gate_witness:
  "statusDelay (run initialServices [SetServices [svcA], StatusTick (Inr 2)]) \<noteq> None \<and>
   serviceStatus (run initialServices [SetServices [svcA], StatusTick (Inr 2)]) = Some 2 \<and>
   statusDelay (run initialServices [StatusTick (Inr 2), SetHasInitialLoaded]) = None \<and>
   serviceStatus (run initialServices [StatusTick (Inr 2), SetHasInitialLoaded]) = None \<and>
   (\<exists>d. d \<noteq> [] \<and> (SetServices d \<in> set [SetServices [svcA], StatusTick (Inr 2)] \<or>
        ServicesTick (Inr d) \<in> set [SetServices [svcA], StatusTick (Inr 2)]))"
proof -
  let ?evs = "[SetServices [svcA], StatusTick (Inr 2)]"
  have h: "statusDelay (run initialServices ?evs) \<noteq> None"
    by (simp add: run_def initialServices_def statusDelay_def)
  from status_poll_gate [of "run initialServices ?evs" ?evs] h
  have "\<exists>d. d \<noteq> [] \<and> (SetServices d \<in> set ?evs \<or> ServicesTick (Inr d) \<in> set ?evs)"
    by blast
  with h show ?thesis
    by (simp add: run_def initialServices_def statusDelay_def)
qed

text \<open>
  Once \<^verbatim>\<open>setServices\<close> has stored a non-empty list the status poll is scheduled, while
  \<^verbatim>\<open>hasInitialLoaded\<close> is still false.
\<close>

theorem status_poll_scheduled_before_initial_load:
  "statusDelay (run initialServices [SetServices [svcA]]) = Some 5000 \<and>
   \<not> hasInitialLoaded (run initialServices [SetServices [svcA]])"
  by (simp add: run_def initialServices_def statusDelay_def)

section \<open>The addresses of a refresh cycle\<close>

lemma presentAddresses_simps [simp]:
  "presentAddresses [] = []"
  "presentAddresses (None # xs) = presentAddresses xs"
  "presentAddresses (Some [] # xs) = presentAddresses xs"
  "s \<noteq> [] \<Longrightarrow> presentAddresses (Some s # xs) = s # presentAddresses xs"
  by (simp_all add: presentAddresses_def List.map_filter_simps)

lemma presentAddresses_append:
  "presentAddresses (xs @ ys) = presentAddresses xs @ presentAddresses ys"
  by (simp add: presentAddresses_def List.map_filter_def)

lemma foldl_pushIfPresent:
  "foldl pushIfPresent acc xs = acc @ presentAddresses xs"
proof (induction xs arbitrary: acc)
  case Nil
  show ?case by simp
next
  case (Cons x xs)
  show ?case
  proof (cases x)
    case None
    with Cons show ?thesis by (simp add: pushIfPresent_def falsy_def)
  next
    case (Some s)
    with Cons show ?thesis
      by (cases "s = []") (simp_all add: pushIfPresent_def falsy_def getAddress_truthy_def)
  qed
qed

lemma foldl_push_wallets:
  "foldl (\<lambda>acc wallet. pushIfPresent acc (address wallet)) acc ws =
   acc @ presentAddresses (map address ws)"
proof -
  have "foldl (\<lambda>acc wallet. pushIfPresent acc (address wallet)) acc ws =
        foldl pushIfPresent acc (map address ws)"
    by (simp add: foldl_map)
  then show ?thesis by (simp add: foldl_pushIfPresent)
qed

lemma walletsToCheck_eq:
  "walletsToCheck ws sa = presentAddresses (map address ws) @ presentAddresses sa"
  by (simp add: walletsToCheck_def foldl_pushIfPresent foldl_push_wallets)

lemma set_presentAddresses:
  "set (presentAddresses xs) = {s. Some s \<in> set xs \<and> s \<noteq> []}"
  by (induction xs)
     (auto simp: presentAddresses_def List.map_filter_simps split: option.splits)

lemma count_presentAddresses:
  "a \<noteq> [] \<Longrightarrow> count_list (presentAddresses xs) a = count_list xs (Some a)"
  by (induction xs)
     (auto simp: presentAddresses_def List.map_filter_simps split: option.splits)

lemma count_list_pos: "x \<in> set xs \<Longrightarrow> 0 < count_list xs x"
  by (induction xs) auto

lemma walletsToCheck_Nil_iff:
  "walletsToCheck ws sa = [] \<longleftrightarrow>
     (\<forall>w\<in>set ws. falsy (address w)) \<and> (\<forall>x\<in>set sa. falsy x)"
proof -
  have "presentAddresses xs = [] \<longleftrightarrow> (\<forall>x\<in>set xs. falsy x)" for xs
    by (induction xs)
       (auto simp: presentAddresses_def List.map_filter_simps falsy_def split: option.splits)
  then show ?thesis by (simp add: walletsToCheck_eq)
qed

text \<open>
  C9. Only addresses that pass the format test should enter the monitored list. The derived
  service list meets this; the wallet loop does not: it tests only that the address is
  present, so a non-empty wallet address that fails the format test is collected and a
  balance call is issued for it.
\<close>

theorem wallet_address_not_validated:
  assumes "a \<noteq> []" "\<not> isAddress a" "\<not> isAddress ''undefined''"
  shows "Some a \<notin> set (serviceAddresses isAddress svcs) \<and>
         a \<in> set (walletsToCheck (ws @ [\<lparr>address = Some a\<rparr>] @ ws') sa) \<and>
         (a, template rpc) \<in>
           set (balanceCalls rpc (walletsToCheck (ws @ [\<lparr>address = Some a\<rparr>] @ ws') sa))"
proof -
  have "serviceAddresses isAddress svcs = map Some (filter isAddress (candidateStrings svcs))"
    using assms(3) by (rule serviceAddresses_filter)
  then have 1: "Some a \<notin> set (serviceAddresses isAddress svcs)"
    using assms(2) by auto
  have 2: "a \<in> set (walletsToCheck (ws @ [\<lparr>address = Some a\<rparr>] @ ws') sa)"
    using assms(1) by (simp add: walletsToCheck_eq set_presentAddresses)
  then have 3: "(a, template rpc) \<in>
      set (balanceCalls rpc (walletsToCheck (ws @ [\<lparr>address = Some a\<rparr>] @ ws') sa))"
    by (simp add: balanceCalls_def)
  from 1 2 3 show ?thesis by simp
qed

theorem wallet_address_not_validated_witness:
  "\<not> shapeOk ''0x12'' \<and>
   serviceAddresses shapeOk
     [\<lparr>hash = ''0xA'', chain_data = \<lparr>instances = Some [''0x12''], multisig = Some ''0x12''\<rparr>\<rparr>] = [] \<and>
   walletsToCheck [\<lparr>address = Some ''0x12''\<rparr>] [] = [''0x12''] \<and>
   balanceCalls (Some ''http://rpc'') (walletsToCheck [\<lparr>address = Some ''0x12''\<rparr>] []) =
     [(''0x12'', ''http://rpc'')]"
proof -
  have h1: "''0x12'' \<noteq> []" by simp
  have h2: "\<not> shapeOk ''0x12''" by (simp add: shapeOk_def)
  have h3: "\<not> shapeOk ''undefined''" by (simp add: shapeOk_def)
  have "''0x12'' \<in> set (walletsToCheck ([] @ [\<lparr>address = Some ''0x12''\<rparr>] @ []) [])"
    using wallet_address_not_validated [of "''0x12''" shapeOk "[]" "[]" "[]" "[]" None] h1 h2 h3
    by blast
  moreover have "length (walletsToCheck [\<lparr>address = Some ''0x12''\<rparr>] []) = 1"
    by (simp add: walletsToCheck_eq)
  ultimately have w: "walletsToCheck [\<lparr>address = Some ''0x12''\<rparr>] [] = [''0x12'']"
    by (cases "walletsToCheck [\<lparr>address = Some ''0x12''\<rparr>] []") auto
  have s: "serviceAddresses shapeOk
     [\<lparr>hash = ''0xA'', chain_data = \<lparr>instances = Some [''0x12''], multisig = Some ''0x12''\<rparr>\<rparr>] = []"
    by (simp add: serviceAddresses_def collectService_def pushValidInstance_def template_def
          shapeOk_def)
  from h2 w s show ?thesis by (simp add: balanceCalls_def template_def)
qed

section \<open>The balance refresh\<close>

lemma fulfilledValues_simps [simp]:
  "fulfilledValues [] = []"
  "fulfilledValues (Inl r # ps) = fulfilledValues ps"
  "fulfilledValues (Inr v # ps) = v # fulfilledValues ps"
  by (simp_all add: fulfilledValues_def List.map_filter_simps)

lemma reduce_settled:
  "foldl addFulfilled acc
     (map (\<lambda>p. case p of Inl r \<Rightarrow> Rejected r | Inr v \<Rightarrow> Fulfilled v) ps) =
   foldl (+) acc (fulfilledValues ps)"
proof (induction ps arbitrary: acc)
  case Nil
  show ?case by simp
next
  case (Cons p ps)
  show ?case
  proof (cases p)
    case (Inl r)
    with Cons show ?thesis by (simp add: addFulfilled_def)
  next
    case (Inr v)
    with Cons show ?thesis by (simp add: addFulfilled_def)
  qed
qed

lemma updateBalance_fold:
  "updateBalance getEthBalance rpc serviceAddrs st =
     Inr (st\<lparr>balance := Some (foldl (+) 0 (fulfilledValues
       (balancePromises getEthBalance rpc (walletsToCheck (wallets st) serviceAddrs))))\<rparr>)"
  by (simp add: updateBalance_def allSettled_def reduce_settled)

lemma balancePromises_map:
  "balancePromises g rpc addrs = map (\<lambda>a. g a (template rpc)) addrs"
  by (simp add: balancePromises_def balanceCalls_def comp_def)

lemma fulfilledValues_all_rejected:
  assumes "\<forall>a\<in>set addrs. \<exists>r. g a (template rpc) = Inl r"
  shows "fulfilledValues (balancePromises g rpc addrs) = []"
  using assms by (induction addrs) (auto simp: balancePromises_map)

lemma foldl_plus_sum_list:
  fixes acc :: "'n::monoid_add"
  shows "foldl (+) acc xs = acc + sum_list xs"
  by (induction xs arbitrary: acc) (simp_all add: add.assoc)

lemma sum_fulfilledValues:
  fixes ps :: "(reason + 'n::monoid_add) list"
  shows "sum_list (fulfilledValues ps) = sum_list (map contribution ps)"
proof (induction ps)
  case Nil
  show ?case by simp
next
  case (Cons p ps)
  then show ?case by (cases p) (simp_all add: contribution_def)
qed

text \<open>
  Where addition is associative the published balance is the sum of what each call
  contributes: its value when fulfilled, \<open>0\<close> when rejected.
\<close>

lemma updateBalance_sum_list:
  fixes getEthBalance :: "Address \<Rightarrow> string \<Rightarrow> reason + 'n::monoid_add"
  shows "updateBalance getEthBalance rpc serviceAddrs st =
     Inr (st\<lparr>balance := Some (sum_list (map (\<lambda>a. contribution (getEthBalance a (template rpc)))
       (walletsToCheck (wallets st) serviceAddrs)))\<rparr>)"
  by (simp add: updateBalance_fold foldl_plus_sum_list sum_fulfilledValues balancePromises_map
        comp_def)

lemma aggregate_remove1:
  fixes g :: "Address \<Rightarrow> string \<Rightarrow> reason + 'n::comm_monoid_add"
  assumes "a \<in> set addrs" "g a (template rpc) = Inr v"
  shows "foldl (+) 0 (fulfilledValues (balancePromises g rpc addrs)) =
         v + foldl (+) 0 (fulfilledValues (balancePromises g rpc (remove1 a addrs)))"
proof -
  let ?f = "\<lambda>a. contribution (g a (template rpc))"
  have "sum_list (map ?f addrs) = ?f a + sum_list (map ?f (remove1 a addrs))"
    using assms(1) by (rule sum_list_map_remove1)
  moreover have "?f a = v" using assms(2) by (simp add: contribution_def)
  ultimately show ?thesis
    by (simp add: foldl_plus_sum_list sum_fulfilledValues balancePromises_map comp_def)
qed

text \<open>
  C1. The balance calls of a refresh cycle are independent and awaited together with
  \<^verbatim>\<open>Promise.allSettled\<close>. Whatever the outcome of each call, \<^verbatim>\<open>updateBalance\<close>
  fulfils, and the balance it publishes is the sum, accumulated from 0 in call order, of the
  values of the fulfilled calls only: a rejected call adds nothing and fails nothing.
\<close>

theorem updateBalance_sums_fulfilled:
  "updateBalance getEthBalance rpc serviceAddrs st =
     Inr (st\<lparr>balance := Some (foldl (+) 0 (fulfilledValues
       (balancePromises getEthBalance rpc (walletsToCheck (wallets st) serviceAddrs))))\<rparr>)"
  by (rule updateBalance_fold)

theorem updateBalance_sums_fulfilled_witness:
  "updateBalance rpcTable (Some ''http://rpc'') [Some addr1, Some addr2]
     \<lparr>wallets = [\<lparr>address = Some addr3\<rparr>], balance = None\<rparr> =
   Inr \<lparr>wallets = [\<lparr>address = Some addr3\<rparr>], balance = Some 4\<rparr>"
  by (subst updateBalance_sums_fulfilled)
     (simp add: balancePromises_map walletsToCheck_eq rpcTable_def addr1_def addr2_def
        addr3_def)

text \<open>
  C6, amended. A refresh cycle never fails as a whole and never keeps the previous balance:
  whatever balance was published before, the cycle replaces it by the sum, accumulated from
  0 in call order, of the values of the calls fulfilled in this cycle; so a cycle in which
  every call is rejected publishes 0.
\<close>

theorem updateBalance_replaces_balance:
  "updateBalance g rpc sa st =
     Inr (st\<lparr>balance := Some (foldl (+) 0 (fulfilledValues
       (balancePromises g rpc (walletsToCheck (wallets st) sa))))\<rparr>) \<and>
   updateBalance g rpc sa (st\<lparr>balance := previous\<rparr>) =
     Inr (st\<lparr>balance := Some (foldl (+) 0 (fulfilledValues
       (balancePromises g rpc (walletsToCheck (wallets st) sa))))\<rparr>) \<and>
   ((\<forall>a\<in>set (walletsToCheck (wallets st) sa). \<exists>r. g a (template rpc) = Inl r) \<longrightarrow>
      updateBalance g rpc sa st = Inr (st\<lparr>balance := Some 0\<rparr>))"
proof (intro conjI impI)
  show "updateBalance g rpc sa st =
     Inr (st\<lparr>balance := Some (foldl (+) 0 (fulfilledValues
       (balancePromises g rpc (walletsToCheck (wallets st) sa))))\<rparr>)"
    by (rule updateBalance_fold)
next
  show "updateBalance g rpc sa (st\<lparr>balance := previous\<rparr>) =
     Inr (st\<lparr>balance := Some (foldl (+) 0 (fulfilledValues
       (balancePromises g rpc (walletsToCheck (wallets st) sa))))\<rparr>)"
    by (simp add: updateBalance_fold)
next
  assume "\<forall>a\<in>set (walletsToCheck (wallets st) sa). \<exists>r. g a (template rpc) = Inl r"
  then have "fulfilledValues (balancePromises g rpc (walletsToCheck (wallets st) sa)) = []"
    by (rule fulfilledValues_all_rejected)
  then show "updateBalance g rpc sa st = Inr (st\<lparr>balance := Some 0\<rparr>)"
    by (simp add: updateBalance_fold)
qed

theorem updateBalance_replaces_balance_witness:
  "updateBalance rpcTable (Some ''http://rpc'') [Some addr2]
     \<lparr>wallets = [\<lparr>address = Some addr1\<rparr>], balance = Some 5\<rparr> =
     Inr \<lparr>wallets = [\<lparr>address = Some addr1\<rparr>], balance = Some 1.5\<rparr> \<and>
   updateBalance rpcDown (Some ''http://rpc'') [Some addr2]
     \<lparr>wallets = [\<lparr>address = Some addr1\<rparr>], balance = Some 5\<rparr> =
     Inr \<lparr>wallets = [\<lparr>address = Some addr1\<rparr>], balance = Some 0\<rparr>"
proof -
  let ?st = "\<lparr>wallets = [\<lparr>address = Some addr1\<rparr>], balance = Some (5::real)\<rparr>"
  have ne: "addr2 \<noteq> addr1" by (simp add: addr1_def addr2_def)
  have w: "walletsToCheck [\<lparr>address = Some addr1\<rparr>] [Some addr2] = [addr1, addr2]"
    by (simp add: walletsToCheck_eq addr1_def addr2_def)
  have h: "\<forall>a\<in>set (walletsToCheck (wallets ?st) [Some addr2]).
             \<exists>r. rpcDown a (template (Some ''http://rpc'')) = Inl r"
    by (simp add: rpcDown_def)
  have "updateBalance rpcTable (Some ''http://rpc'') [Some addr2] ?st =
     Inr (?st\<lparr>balance := Some (foldl (+) 0 (fulfilledValues
       (balancePromises rpcTable (Some ''http://rpc'')
          (walletsToCheck (wallets ?st) [Some addr2]))))\<rparr>)"
    by (rule updateBalance_replaces_balance [THEN conjunct1])
  then have a: "updateBalance rpcTable (Some ''http://rpc'') [Some addr2] ?st =
     Inr \<lparr>wallets = [\<lparr>address = Some addr1\<rparr>], balance = Some 1.5\<rparr>"
    by (simp add: w balancePromises_map rpcTable_def ne)
  from updateBalance_replaces_balance
         [of rpcDown "Some ''http://rpc''" "[Some addr2]" ?st "None"] h
  have b: "updateBalance rpcDown (Some ''http://rpc'') [Some addr2] ?st =
     Inr (?st\<lparr>balance := Some 0\<rparr>)"
    by blast
  from a b show ?thesis by simp
qed

text \<open>
  With the endpoint unreachable, a published balance of 5 is replaced by 0: the previous
  value is not retained.
\<close>

theorem stale_balance_replaced:
  "updateBalance rpcDown (Some ''http://rpc'') []
     \<lparr>wallets = [\<lparr>address = Some addr1\<rparr>], balance = Some 5\<rparr> =
     Inr \<lparr>wallets = [\<lparr>address = Some addr1\<rparr>], balance = Some 0\<rparr> \<and>
   updateBalance rpcDown (Some ''http://rpc'') []
     \<lparr>wallets = [\<lparr>address = Some addr1\<rparr>], balance = Some 5\<rparr> \<noteq>
     Inr \<lparr>wallets = [\<lparr>address = Some addr1\<rparr>], balance = Some 5\<rparr>"
  by (simp add: updateBalance_fold balancePromises_map walletsToCheck_eq rpcDown_def addr1_def)

lemma fulfilledValues_append:
  "fulfilledValues (xs @ ys) = fulfilledValues xs @ fulfilledValues ys"
  by (simp add: fulfilledValues_def List.map_filter_def)

lemma balancePromises_append:
  "balancePromises g rpc (xs @ ys) = balancePromises g rpc xs @ balancePromises g rpc ys"
  by (simp add: balancePromises_map)

lemma fulfilled_around:
  assumes "g a (template rpc) = Inr v"
  shows "fulfilledValues (balancePromises g rpc (pre @ [a] @ post)) =
         fulfilledValues (balancePromises g rpc pre) @ [v] @
         fulfilledValues (balancePromises g rpc post)"
  using assms by (simp add: balancePromises_map fulfilledValues_append)

text \<open>
  C10. An address that is both a wallet's address and one of the service-derived addresses
  is collected once from each list: the number of balance calls for it is the number of its
  occurrences in the two lists together, at least two. The collected list has the form
  \<open>pre @ [a] @ mid @ [a] @ post\<close>, and when the call for the address is fulfilled with \<open>v\<close>
  the reduction adds \<open>v\<close> at both positions: the published balance is the running sum over
  \<open>pre\<close>, plus \<open>v\<close>, continued over \<open>mid\<close>, plus \<open>v\<close>, continued over \<open>post\<close>. This
  holds for any addition, rounding or not.
\<close>

theorem updateBalance_counts_shared_address_twice:
  fixes getEthBalance :: "Address \<Rightarrow> string \<Rightarrow> reason + 'n::{plus,zero}"
  assumes "Some a \<in> set (map address (wallets st))"
    and "Some a \<in> set serviceAddrs"
    and "a \<noteq> []"
    and "getEthBalance a (template rpc) = Inr v"
  shows "count_list (map fst (balanceCalls rpc (walletsToCheck (wallets st) serviceAddrs))) a =
           count_list (map address (wallets st)) (Some a) + count_list serviceAddrs (Some a) \<and>
         2 \<le> count_list (map fst (balanceCalls rpc (walletsToCheck (wallets st) serviceAddrs))) a \<and>
         (\<exists>pre mid post.
            walletsToCheck (wallets st) serviceAddrs = pre @ [a] @ mid @ [a] @ post \<and>
            updateBalance getEthBalance rpc serviceAddrs st =
              Inr (st\<lparr>balance := Some
                (foldl (+)
                   (foldl (+)
                      (foldl (+) 0 (fulfilledValues (balancePromises getEthBalance rpc pre)) + v)
                      (fulfilledValues (balancePromises getEthBalance rpc mid)) + v)
                   (fulfilledValues (balancePromises getEthBalance rpc post)))\<rparr>))"
proof -
  let ?ws = "presentAddresses (map address (wallets st))"
  let ?sa = "presentAddresses serviceAddrs"
  let ?wtc = "walletsToCheck (wallets st) serviceAddrs"
  let ?fv = "\<lambda>l. fulfilledValues (balancePromises getEthBalance rpc l)"
  have wtc: "?wtc = ?ws @ ?sa" by (rule walletsToCheck_eq)
  have calls: "map fst (balanceCalls rpc ?wtc) = ?wtc"
    by (simp add: balanceCalls_def comp_def)
  have cnt: "count_list ?wtc a =
      count_list (map address (wallets st)) (Some a) + count_list serviceAddrs (Some a)"
    using assms(3) by (simp add: wtc count_presentAddresses)
  have "0 < count_list (map address (wallets st)) (Some a)"
    using assms(1) by (rule count_list_pos)
  moreover have "0 < count_list serviceAddrs (Some a)"
    using assms(2) by (rule count_list_pos)
  ultimately have two: "2 \<le> count_list ?wtc a" using cnt by linarith
  have "a \<in> set ?ws" using assms(1,3) by (simp add: set_presentAddresses)
  then obtain pre r1 where ws: "?ws = pre @ a # r1" by (auto dest: split_list)
  have "a \<in> set ?sa" using assms(2,3) by (simp add: set_presentAddresses)
  then obtain m2 post where sa: "?sa = m2 @ a # post" by (auto dest: split_list)
  have shape: "?wtc = pre @ [a] @ (r1 @ m2) @ [a] @ post"
    by (simp add: wtc ws sa)
  have "?fv ?wtc = ?fv pre @ [v] @ ?fv ((r1 @ m2) @ [a] @ post)"
    unfolding shape using assms(4) by (rule fulfilled_around)
  also have "?fv ((r1 @ m2) @ [a] @ post) = ?fv (r1 @ m2) @ [v] @ ?fv post"
    using assms(4) by (rule fulfilled_around)
  finally have fv: "?fv ?wtc = ?fv pre @ [v] @ ?fv (r1 @ m2) @ [v] @ ?fv post" .
  have "updateBalance getEthBalance rpc serviceAddrs st =
          Inr (st\<lparr>balance := Some (foldl (+) 0 (?fv ?wtc))\<rparr>)"
    by (rule updateBalance_fold)
  then have upd: "updateBalance getEthBalance rpc serviceAddrs st =
      Inr (st\<lparr>balance := Some
        (foldl (+) (foldl (+) (foldl (+) 0 (?fv pre) + v) (?fv (r1 @ m2)) + v) (?fv post))\<rparr>)"
    by (simp add: fv)
  from shape upd have "\<exists>pre mid post.
      ?wtc = pre @ [a] @ mid @ [a] @ post \<and>
      updateBalance getEthBalance rpc serviceAddrs st =
        Inr (st\<lparr>balance := Some
          (foldl (+) (foldl (+) (foldl (+) 0 (?fv pre) + v) (?fv mid) + v) (?fv post))\<rparr>)"
    by blast
  with cnt two calls show ?thesis by simp
qed

theorem updateBalance_counts_shared_address_twice_witness:
  "updateBalance rpcTable (Some ''http://rpc'') [Some addr1]
     \<lparr>wallets = [\<lparr>address = Some addr1\<rparr>], balance = None\<rparr> =
     Inr \<lparr>wallets = [\<lparr>address = Some addr1\<rparr>], balance = Some 3\<rparr> \<and>
   map fst (balanceCalls (Some ''http://rpc'')
     (walletsToCheck [\<lparr>address = Some addr1\<rparr>] [Some addr1])) = [addr1, addr1]"
proof -
  let ?st = "\<lparr>wallets = [\<lparr>address = Some addr1\<rparr>], balance = (None :: real option)\<rparr>"
  let ?fv = "\<lambda>l. fulfilledValues (balancePromises rpcTable (Some ''http://rpc'') l)"
  have h1: "Some addr1 \<in> set (map address (wallets ?st))" by simp
  have h2: "Some addr1 \<in> set [Some addr1]" by simp
  have h3: "addr1 \<noteq> []" by (simp add: addr1_def)
  have h4: "rpcTable addr1 (template (Some ''http://rpc'')) = Inr 1.5"
    by (simp add: rpcTable_def)
  have w: "walletsToCheck (wallets ?st) [Some addr1] = [addr1, addr1]"
    using h3 by (simp add: walletsToCheck_eq)
  from updateBalance_counts_shared_address_twice
         [where a = addr1 and st = ?st and serviceAddrs = "[Some addr1]"
            and getEthBalance = rpcTable and rpc = "Some ''http://rpc''" and v = "1.5"]
       h1 h2 h3 h4
  obtain pre mid post where
    shape: "walletsToCheck (wallets ?st) [Some addr1] = pre @ [addr1] @ mid @ [addr1] @ post"
    and upd: "updateBalance rpcTable (Some ''http://rpc'') [Some addr1] ?st =
          Inr (?st\<lparr>balance := Some
            (foldl (+) (foldl (+) (foldl (+) 0 (?fv pre) + 1.5) (?fv mid) + 1.5) (?fv post))\<rparr>)"
    by blast
  from shape w have "length (pre @ [addr1] @ mid @ [addr1] @ post) = 2" by simp
  then have "pre = [] \<and> mid = [] \<and> post = []" by simp
  with upd have "updateBalance rpcTable (Some ''http://rpc'') [Some addr1] ?st =
      Inr (?st\<lparr>balance := Some 3\<rparr>)"
    by (simp add: balancePromises_map)
  then show ?thesis using w by (simp add: balanceCalls_def comp_def)
qed

text \<open>
  Where addition is commutative and associative the two additions can be put in front:
  the published balance is \<open>v + v\<close> plus the sum over the remaining calls.
\<close>

lemma updateBalance_shared_address_exact:
  fixes getEthBalance :: "Address \<Rightarrow> string \<Rightarrow> reason + 'n::comm_monoid_add"
  assumes "Some a \<in> set (map address (wallets st))"
    and "Some a \<in> set serviceAddrs"
    and "a \<noteq> []"
    and "getEthBalance a (template rpc) = Inr v"
  shows "updateBalance getEthBalance rpc serviceAddrs st =
           Inr (st\<lparr>balance := Some (v + v + foldl (+) 0 (fulfilledValues
             (balancePromises getEthBalance rpc
               (remove1 a (remove1 a (walletsToCheck (wallets st) serviceAddrs))))))\<rparr>)"
proof -
  let ?ws = "presentAddresses (map address (wallets st))"
  let ?sa = "presentAddresses serviceAddrs"
  let ?wtc = "walletsToCheck (wallets st) serviceAddrs"
  have wtc: "?wtc = ?ws @ ?sa" by (rule walletsToCheck_eq)
  have in_ws: "a \<in> set ?ws" using assms(1,3) by (simp add: set_presentAddresses)
  have in_sa: "a \<in> set ?sa" using assms(2,3) by (simp add: set_presentAddresses)
  have in1: "a \<in> set ?wtc" using in_ws by (simp add: wtc)
  have "remove1 a ?wtc = remove1 a ?ws @ ?sa" using in_ws by (simp add: wtc remove1_append)
  then have in2: "a \<in> set (remove1 a ?wtc)" using in_sa by simp
  have "foldl (+) 0 (fulfilledValues (balancePromises getEthBalance rpc ?wtc)) =
        v + foldl (+) 0 (fulfilledValues (balancePromises getEthBalance rpc (remove1 a ?wtc)))"
    using in1 assms(4) by (rule aggregate_remove1)
  also have "foldl (+) 0 (fulfilledValues (balancePromises getEthBalance rpc (remove1 a ?wtc))) =
        v + foldl (+) 0 (fulfilledValues
              (balancePromises getEthBalance rpc (remove1 a (remove1 a ?wtc))))"
    using in2 assms(4) by (rule aggregate_remove1)
  finally have agg: "foldl (+) 0 (fulfilledValues (balancePromises getEthBalance rpc ?wtc)) =
        v + v + foldl (+) 0 (fulfilledValues
              (balancePromises getEthBalance rpc (remove1 a (remove1 a ?wtc))))"
    by (simp add: add.assoc)
  have "updateBalance getEthBalance rpc serviceAddrs st =
          Inr (st\<lparr>balance := Some (foldl (+) 0 (fulfilledValues
            (balancePromises getEthBalance rpc ?wtc)))\<rparr>)"
    by (rule updateBalance_fold)
  with agg show ?thesis by simp
qed

section \<open>The balance timer\<close>

text \<open>
  C5, amended. The balance timer is disabled exactly when the wallet list is empty, and then
  a period issues no call. Whenever the wallet list is non-empty the timer runs with delay
  5000 and each period starts a refresh cycle, also when the monitored address list is
  empty. A cycle over an empty monitored list issues no balance call. The timer runs
  against an empty monitored list exactly when the wallet list is non-empty, no wallet in it
  carries an address and no service-derived address is present.
\<close>

theorem balance_timer_gate:
  "(balanceDelay st = None \<longleftrightarrow> wallets st = []) \<and>
   (wallets st = [] \<longrightarrow> balanceTick g rpc sa st = ([], Inr st)) \<and>
   (wallets st \<noteq> [] \<longrightarrow>
      balanceDelay st = Some 5000 \<and>
      balanceTick g rpc sa st =
        (balanceCalls rpc (walletsToCheck (wallets st) sa), updateBalance g rpc sa st)) \<and>
   (walletsToCheck (wallets st) sa = [] \<longrightarrow> fst (balanceTick g rpc sa st) = []) \<and>
   (walletsToCheck (wallets st) sa = [] \<and> balanceDelay st = Some 5000 \<longleftrightarrow>
      wallets st \<noteq> [] \<and> (\<forall>w\<in>set (wallets st). falsy (address w)) \<and>
      (\<forall>x\<in>set sa. falsy x))"
proof -
  have gate: "balanceDelay st = None \<longleftrightarrow> wallets st = []"
    by (simp add: balanceDelay_def)
  have off: "wallets st = [] \<longrightarrow> balanceTick g rpc sa st = ([], Inr st)"
    by (simp add: balanceTick_def balanceDelay_def)
  have on: "wallets st \<noteq> [] \<longrightarrow>
      balanceDelay st = Some 5000 \<and>
      balanceTick g rpc sa st =
        (balanceCalls rpc (walletsToCheck (wallets st) sa), updateBalance g rpc sa st)"
    by (simp add: balanceTick_def balanceDelay_def)
  have quiet: "walletsToCheck (wallets st) sa = [] \<longrightarrow> fst (balanceTick g rpc sa st) = []"
    by (simp add: balanceTick_def balanceCalls_def split: option.splits)
  have "balanceDelay st = Some 5000 \<longleftrightarrow> wallets st \<noteq> []"
    by (simp add: balanceDelay_def)
  then have empty: "walletsToCheck (wallets st) sa = [] \<and> balanceDelay st = Some 5000 \<longleftrightarrow>
      wallets st \<noteq> [] \<and> (\<forall>w\<in>set (wallets st). falsy (address w)) \<and>
      (\<forall>x\<in>set sa. falsy x)"
    by (auto simp: walletsToCheck_Nil_iff)
  from gate off on quiet empty show ?thesis by blast
qed

theorem balance_timer_gate_witness:
  "balanceDelay \<lparr>wallets = [], balance = Some (1::real)\<rparr> = None \<and>
   balanceTick rpcTable None [Some addr1] \<lparr>wallets = [], balance = Some 1\<rparr> =
     ([], Inr \<lparr>wallets = [], balance = Some 1\<rparr>) \<and>
   balanceDelay \<lparr>wallets = [\<lparr>address = None\<rparr>], balance = Some (1::real)\<rparr> = Some 5000 \<and>
   balanceTick rpcTable None [] \<lparr>wallets = [\<lparr>address = None\<rparr>], balance = Some 1\<rparr> =
     ([], Inr \<lparr>wallets = [\<lparr>address = None\<rparr>], balance = Some 0\<rparr>) \<and>
   balanceTick rpcTable (Some ''http://rpc'') []
       \<lparr>wallets = [\<lparr>address = Some addr1\<rparr>], balance = Some 1\<rparr> =
     ([(addr1, ''http://rpc'')],
      Inr \<lparr>wallets = [\<lparr>address = Some addr1\<rparr>], balance = Some 1.5\<rparr>)"
proof -
  let ?idle = "\<lparr>wallets = [], balance = Some (1::real)\<rparr>"
  let ?blank = "\<lparr>wallets = [\<lparr>address = None\<rparr>], balance = Some (1::real)\<rparr>"
  let ?one = "\<lparr>wallets = [\<lparr>address = Some addr1\<rparr>], balance = Some (1::real)\<rparr>"
  have h1: "wallets ?idle = []" by simp
  have h2: "wallets ?blank \<noteq> []" by simp
  have h3: "wallets ?one \<noteq> []" by simp
  have w2: "walletsToCheck [\<lparr>address = None\<rparr>] [] = []"
    by (simp add: walletsToCheck_eq)
  have w3: "walletsToCheck [\<lparr>address = Some addr1\<rparr>] [] = [addr1]"
    by (simp add: walletsToCheck_eq addr1_def)
  from balance_timer_gate [of ?idle rpcTable None "[Some addr1]"] h1
  have a: "balanceDelay ?idle = None \<and>
           balanceTick rpcTable None [Some addr1] ?idle = ([], Inr ?idle)"
    by blast
  from balance_timer_gate [of ?blank rpcTable None "[]"] h2
  have b: "balanceDelay ?blank = Some 5000 \<and>
           balanceTick rpcTable None [] ?blank =
             (balanceCalls None (walletsToCheck (wallets ?blank) []),
              updateBalance rpcTable None [] ?blank)"
    by blast
  from balance_timer_gate [of ?one rpcTable "Some ''http://rpc''" "[]"] h3
  have c: "balanceTick rpcTable (Some ''http://rpc'') [] ?one =
             (balanceCalls (Some ''http://rpc'') (walletsToCheck (wallets ?one) []),
              updateBalance rpcTable (Some ''http://rpc'') [] ?one)"
    by blast
  have b': "balanceTick rpcTable None [] ?blank = ([], Inr (?blank\<lparr>balance := Some 0\<rparr>))"
    using b by (simp add: w2 balanceCalls_def updateBalance_fold balancePromises_map)
  have c': "balanceTick rpcTable (Some ''http://rpc'') [] ?one =
      ([(addr1, ''http://rpc'')], Inr (?one\<lparr>balance := Some 1.5\<rparr>))"
    using c
    by (simp add: w3 balanceCalls_def updateBalance_fold balancePromises_map rpcTable_def
          template_def)
  from a b b' c' show ?thesis by simp
qed

text \<open>
  A wallet list holding one wallet without an address: the monitored list is empty and the
  timer is enabled.
\<close>

theorem balance_timer_runs_on_empty_set:
  "walletsToCheck [\<lparr>address = None\<rparr>] [] = [] \<and>
   balanceDelay \<lparr>wallets = [\<lparr>address = None\<rparr>], balance = (None :: real option)\<rparr> = Some 5000"
  by (simp add: walletsToCheck_def pushIfPresent_def falsy_def balanceDelay_def)

section \<open>The multicall reads\<close>

lemma foldl_store_cases:
  "(\<exists>(b, i) \<in> set ps. keyAt addresses i = x \<and>
       foldl (storeBalance addresses d) m ps x = Some (d b)) \<or>
   (x \<notin> (keyAt addresses \<circ> snd) ` set ps \<and> foldl (storeBalance addresses d) m ps x = m x)"
proof (induction ps rule: rev_induct)
  case Nil
  show ?case by simp
next
  case (snoc p ps)
  obtain b i where p: "p = (b, i)" by (cases p)
  show ?case
  proof (cases "keyAt addresses i = x")
    case True
    then show ?thesis by (auto simp: p storeBalance_def)
  next
    case False
    with snoc show ?thesis by (auto simp: p storeBalance_def)
  qed
qed

lemma dom_storeBalance:
  "dom (storeBalance addresses d acc p) = insert (keyAt addresses (snd p)) (dom acc)"
  by (cases p) (simp add: storeBalance_def)

lemma dom_foldl_store:
  "dom (foldl (storeBalance addresses d) m ps) = dom m \<union> (keyAt addresses \<circ> snd) ` set ps"
  by (induction ps arbitrary: m) (auto simp: dom_storeBalance)

lemma keys_of_full_response:
  assumes "length rs = length addresses"
  shows "(keyAt addresses \<circ> snd) ` set (zip rs [0..<length rs]) = set addresses"
proof -
  have "snd ` set (zip rs [0..<length rs]) = set (map snd (zip rs [0..<length rs]))"
    by (rule set_map [symmetric])
  also have "map snd (zip rs [0..<length rs]) = [0..<length rs]"
    by simp
  finally have "snd ` set (zip rs [0..<length rs]) = {0..<length rs}"
    by simp
  then have "(keyAt addresses \<circ> snd) ` set (zip rs [0..<length rs]) =
        keyAt addresses ` {0..<length rs}"
    by (simp only: image_comp [symmetric])
  also have "keyAt addresses ` {0..<length rs} = nth addresses ` {0..<length addresses}"
    using assms by (intro image_cong) (simp_all add: keyAt_def)
  also have "nth addresses ` {0..<length addresses} = set addresses"
    by (simp add: nth_image)
  finally show ?thesis .
qed

lemma dom_collectBalances:
  assumes "length rs = length addresses"
  shows "dom (collectBalances addresses d rs) = set addresses"
  using keys_of_full_response [OF assms]
  by (simp add: collectBalances_def dom_foldl_store)

lemma collectBalances_value:
  assumes "length rs = length addresses" "a \<in> set addresses"
  shows "\<exists>j<length addresses. addresses ! j = a \<and>
           collectBalances addresses d rs a = Some (d (rs ! j))"
proof -
  let ?ps = "zip rs [0..<length rs]"
  have "a \<in> (keyAt addresses \<circ> snd) ` set ?ps"
    using keys_of_full_response [OF assms(1)] assms(2) by simp
  with foldl_store_cases [of ?ps addresses a d Map.empty]
  obtain b i where bi: "(b, i) \<in> set ?ps" "keyAt addresses i = a"
      "collectBalances addresses d rs a = Some (d b)"
    by (auto simp: collectBalances_def)
  from bi(1) have "i < length rs" "b = rs ! i"
    by (auto simp: set_zip)
  with bi assms(1) show ?thesis by (auto simp: keyAt_def)
qed

text \<open>
  C7. \<^verbatim>\<open>getEthBalances\<close> is all-or-nothing. When the multicall request is rejected
  (endpoint unreachable, response that cannot be decoded) the whole call is rejected with
  that reason and no mapping is returned; when it is fulfilled with one result per call, the
  returned mapping has an entry for every input address and for nothing else.
\<close>

theorem getEthBalances_atomic:
  "(multicallAll rpc 100 (ethCallData addresses) = Inl e \<longrightarrow>
      getEthBalances multicallAll formatEther parseFloat addresses rpc = Inl e) \<and>
   (multicallAll rpc 100 (ethCallData addresses) = Inr rs \<and> length rs = length addresses \<longrightarrow>
      (\<exists>m. getEthBalances multicallAll formatEther parseFloat addresses rpc = Inr m \<and>
           dom m = set addresses))"
  by (simp add: getEthBalances_def dom_collectBalances)

theorem getEthBalances_atomic_witness:
  "getEthBalances multicallDown (\<lambda>b. tally b 18) length [addr1, addr2] ''http://rpc'' =
     Inl ''network error'' \<and>
   (\<exists>m. getEthBalances multicallUp (\<lambda>b. tally b 18) length [addr1, addr2] ''http://rpc'' =
          Inr m \<and>
        dom m = {addr1, addr2})"
proof -
  have h1: "multicallDown ''http://rpc'' 100 (ethCallData [addr1, addr2]) = Inl ''network error''"
    by (simp add: multicallDown_def)
  have h2: "multicallUp ''http://rpc'' 100 (ethCallData [addr1, addr2]) = Inr [5, 6] \<and>
            length [5 :: nat, 6] = length [addr1, addr2]"
    by (simp add: multicallUp_def ethCallData_def upt_rec)
  have a: "getEthBalances multicallDown (\<lambda>b. tally b 18) length [addr1, addr2] ''http://rpc'' =
             Inl ''network error''"
    by (rule getEthBalances_atomic
          [where multicallAll = multicallDown and rpc = "''http://rpc''"
             and addresses = "[addr1, addr2]" and e = "''network error''",
           THEN conjunct1, THEN mp, OF h1])
  have b: "\<exists>m. getEthBalances multicallUp (\<lambda>b. tally b 18) length [addr1, addr2] ''http://rpc'' =
             Inr m \<and> dom m = set [addr1, addr2]"
    by (rule getEthBalances_atomic
          [where multicallAll = multicallUp and rpc = "''http://rpc''"
             and addresses = "[addr1, addr2]" and rs = "[5, 6]",
           THEN conjunct2, THEN mp, OF h2])
  from a b show ?thesis by simp
qed

section \<open>The poller over time\<close>

lemma provider_TimerFires:
  "provider (pollerStep g rpc sa p TimerFires) = provider p"
  by (simp add: pollerStep_def split: option.splits)

lemma wallets_pollerStep:
  "wallets (provider (pollerStep g rpc sa p ev)) = wallets (provider p)"
  by (cases ev) (simp_all add: pollerStep_def updateBalance_fold split: option.splits list.splits)

lemma balanceDelay_pollerStep:
  "balanceDelay (provider (pollerStep g rpc sa p ev)) = balanceDelay (provider p)"
  by (simp add: balanceDelay_def wallets_pollerStep)

lemma inFlight_TimerFires:
  assumes "balanceDelay (provider p) \<noteq> None"
  shows "inFlight (pollerStep g rpc sa p TimerFires) =
         inFlight p @ [balanceCalls rpc (walletsToCheck (wallets (provider p)) sa)]"
  using assms by (auto simp: pollerStep_def split: option.splits)

lemma inFlight_firings:
  assumes "balanceDelay (provider p) \<noteq> None"
  shows "length (inFlight (pollerRun g rpc sa p (replicate n TimerFires))) =
         length (inFlight p) + n"
  using assms
proof (induction n arbitrary: p)
  case 0
  show ?case by (simp add: pollerRun_def)
next
  case (Suc n)
  let ?q = "pollerStep g rpc sa p TimerFires"
  have "balanceDelay (provider ?q) \<noteq> None"
    using Suc.prems by (simp add: balanceDelay_pollerStep)
  then have "length (inFlight (pollerRun g rpc sa ?q (replicate n TimerFires))) =
             length (inFlight ?q) + n"
    by (rule Suc.IH)
  moreover have "length (inFlight ?q) = length (inFlight p) + 1"
    using Suc.prems by (simp add: inFlight_TimerFires)
  ultimately show ?case by (simp add: pollerRun_def)
qed

lemma fire_then_settle:
  assumes "inFlight p = []"
  shows "inFlight (pollerStep g rpc sa (pollerStep g rpc sa p TimerFires) CycleSettles) = []"
  using assms by (simp add: pollerStep_def split: option.splits)

lemma inFlight_sequential:
  assumes "inFlight p = []"
  shows "inFlight (pollerRun g rpc sa p (concat (replicate n [TimerFires, CycleSettles]))) = []"
  using assms
proof (induction n arbitrary: p)
  case 0
  then show ?case by (simp add: pollerRun_def)
next
  case (Suc n)
  let ?q = "pollerStep g rpc sa (pollerStep g rpc sa p TimerFires) CycleSettles"
  have "inFlight ?q = []" using Suc.prems by (rule fire_then_settle)
  then have "inFlight (pollerRun g rpc sa ?q (concat (replicate n [TimerFires, CycleSettles]))) = []"
    by (rule Suc.IH)
  then show ?case by (simp add: pollerRun_def)
qed

text \<open>
  C2, amended. Every firing of the enabled balance timer starts a refresh cycle and issues
  its calls, whatever is still in flight: nothing makes a tick wait for the previous one.
  So \<open>n\<close> firings with no settlement between them add \<open>n\<close> cycles in flight, and cycles
  overlap whenever a cycle's calls take longer than the period. No two cycles are in flight
  together only in runs where each cycle settles before the next firing.
\<close>

theorem poller_starts_cycle_on_every_firing:
  "(balanceDelay (provider p) \<noteq> None \<longrightarrow>
      inFlight (pollerStep g rpc sa p TimerFires) =
        inFlight p @ [balanceCalls rpc (walletsToCheck (wallets (provider p)) sa)]) \<and>
   (balanceDelay (provider p) \<noteq> None \<longrightarrow>
      length (inFlight (pollerRun g rpc sa p (replicate n TimerFires))) =
        length (inFlight p) + n) \<and>
   (inFlight p = [] \<longrightarrow>
      inFlight (pollerRun g rpc sa p (concat (replicate n [TimerFires, CycleSettles]))) = [])"
  using inFlight_TimerFires [of p g rpc sa] inFlight_firings [of p g rpc sa n]
    inFlight_sequential [of p g rpc sa n]
  by blast

theorem poller_starts_cycle_on_every_firing_witness:
  "inFlight (pollerStep rpcTable (Some ''http://rpc'') []
      \<lparr>provider = \<lparr>wallets = [\<lparr>address = Some addr1\<rparr>], balance = None\<rparr>,
        inFlight = [[(addr1, ''http://rpc'')]]\<rparr> TimerFires) =
     [[(addr1, ''http://rpc'')], [(addr1, ''http://rpc'')]] \<and>
   length (inFlight (pollerRun rpcTable (Some ''http://rpc'') []
      \<lparr>provider = \<lparr>wallets = [\<lparr>address = Some addr1\<rparr>], balance = None\<rparr>, inFlight = []\<rparr>
      (replicate 3 TimerFires))) = 3 \<and>
   inFlight (pollerRun rpcTable (Some ''http://rpc'') []
      \<lparr>provider = \<lparr>wallets = [\<lparr>address = Some addr1\<rparr>], balance = None\<rparr>, inFlight = []\<rparr>
      (concat (replicate 2 [TimerFires, CycleSettles]))) = []"
proof -
  let ?st = "\<lparr>wallets = [\<lparr>address = Some addr1\<rparr>], balance = (None :: real option)\<rparr>"
  let ?busy = "\<lparr>provider = ?st, inFlight = [[(addr1, ''http://rpc'')]]\<rparr>"
  let ?free = "\<lparr>provider = ?st, inFlight = []\<rparr>"
  have on1: "balanceDelay (provider ?busy) \<noteq> None" by (simp add: balanceDelay_def)
  have on2: "balanceDelay (provider ?free) \<noteq> None" by (simp add: balanceDelay_def)
  have e: "inFlight ?free = []" by simp
  have w: "walletsToCheck [\<lparr>address = Some addr1\<rparr>] [] = [addr1]"
    by (simp add: walletsToCheck_eq addr1_def)
  from poller_starts_cycle_on_every_firing [of ?busy rpcTable "Some ''http://rpc''" "[]" 0] on1
  have "inFlight (pollerStep rpcTable (Some ''http://rpc'') [] ?busy TimerFires) =
          inFlight ?busy @
          [balanceCalls (Some ''http://rpc'') (walletsToCheck (wallets (provider ?busy)) [])]"
    by blast
  then have a: "inFlight (pollerStep rpcTable (Some ''http://rpc'') [] ?busy TimerFires) =
      [[(addr1, ''http://rpc'')], [(addr1, ''http://rpc'')]]"
    by (simp add: w balanceCalls_def template_def)
  from poller_starts_cycle_on_every_firing [of ?free rpcTable "Some ''http://rpc''" "[]" 3] on2
  have b: "length (inFlight (pollerRun rpcTable (Some ''http://rpc'') [] ?free
             (replicate 3 TimerFires))) = length (inFlight ?free) + 3"
    by blast
  from poller_starts_cycle_on_every_firing [of ?free rpcTable "Some ''http://rpc''" "[]" 2] e
  have c: "inFlight (pollerRun rpcTable (Some ''http://rpc'') [] ?free
             (concat (replicate 2 [TimerFires, CycleSettles]))) = []"
    by blast
  from a b c show ?thesis by simp
qed

text \<open>
  Two firings with no settlement between them: two cycles are in flight together.
\<close>

theorem poller_cycles_overlap:
  "inFlight (pollerRun rpcTable (Some ''http://rpc'') []
      \<lparr>provider = \<lparr>wallets = [\<lparr>address = Some addr1\<rparr>], balance = None\<rparr>, inFlight = []\<rparr>
      [TimerFires, TimerFires]) =
     [[(addr1, ''http://rpc'')], [(addr1, ''http://rpc'')]] \<and>
   \<not> length (inFlight (pollerRun rpcTable (Some ''http://rpc'') []
      \<lparr>provider = \<lparr>wallets = [\<lparr>address = Some addr1\<rparr>], balance = None\<rparr>, inFlight = []\<rparr>
      [TimerFires, TimerFires])) \<le> 1"
proof -
  have w: "walletsToCheck [\<lparr>address = Some addr1\<rparr>] [] = [addr1]"
    by (simp add: walletsToCheck_eq addr1_def)
  show ?thesis
    by (simp add: pollerRun_def pollerStep_def balanceDelay_def w balanceCalls_def template_def)
qed

section \<open>The token read\<close>

lemma erc20CallData_with_call:
  assumes "''call'' \<in> set methods"
  shows "erc20CallData methods contractAddress addresses =
         Inr (map (\<lambda>a. MulticallCall contractAddress ''balanceOf(address):(uint256)'' [a])
                addresses)"
  using assms by (induction addresses) (simp_all add: erc20CallData_def contractCall_def)

lemma erc20CallData_without_call:
  assumes "''call'' \<notin> set methods" "addresses \<noteq> []"
  shows "erc20CallData methods contractAddress addresses =
         Inl ''TypeError: multicallContract.call is not a function''"
  using assms by (cases addresses) (simp_all add: erc20CallData_def contractCall_def)

text \<open>
  C8. \<^verbatim>\<open>getErc20Balances\<close> is written to hand the multicall provider one
  \<^verbatim>\<open>balanceOf(address):(uint256)\<close> call per input address on the given token contract
  and to format every returned amount with the constant 18 decimals, and it does so when
  the contract object has a \<^verbatim>\<open>call\<close> method. Built from an ABI with no view function of
  that name, as Multicall3's, the object has none: for every non-empty address list the
  function is rejected with a \<^verbatim>\<open>TypeError\<close> before any request, whatever the provider
  would answer.
\<close>

theorem getErc20Balances_call_missing:
  "(''call'' \<notin> set methods \<and> addresses \<noteq> [] \<longrightarrow>
      getErc20Balances methods multicallAll formatUnits parseFloat addresses rpc contractAddress =
        Inl ''TypeError: multicallContract.call is not a function'') \<and>
   (''call'' \<in> set methods \<longrightarrow>
      erc20CallData methods contractAddress addresses =
        Inr (map (\<lambda>a. MulticallCall contractAddress ''balanceOf(address):(uint256)'' [a])
               addresses)) \<and>
   (''call'' \<in> set methods \<and>
    multicallAll rpc 100
      (map (\<lambda>a. MulticallCall contractAddress ''balanceOf(address):(uint256)'' [a]) addresses) =
      Inr rs \<and>
    length rs = length addresses \<longrightarrow>
      (\<exists>m. getErc20Balances methods multicallAll formatUnits parseFloat addresses rpc
             contractAddress = Inr m \<and>
           dom m = set addresses \<and>
           (\<forall>a\<in>set addresses. \<exists>j<length addresses. addresses ! j = a \<and>
              m a = Some (parseFloat (formatUnits (rs ! j) 18)))))"
proof (intro conjI impI)
  assume "''call'' \<notin> set methods \<and> addresses \<noteq> []"
  then have "erc20CallData methods contractAddress addresses =
      Inl ''TypeError: multicallContract.call is not a function''"
    by (simp add: erc20CallData_without_call)
  then show "getErc20Balances methods multicallAll formatUnits parseFloat addresses rpc
      contractAddress = Inl ''TypeError: multicallContract.call is not a function''"
    by (simp add: getErc20Balances_def)
next
  assume "''call'' \<in> set methods"
  then show "erc20CallData methods contractAddress addresses =
      Inr (map (\<lambda>a. MulticallCall contractAddress ''balanceOf(address):(uint256)'' [a])
             addresses)"
    by (rule erc20CallData_with_call)
next
  assume h: "''call'' \<in> set methods \<and>
    multicallAll rpc 100
      (map (\<lambda>a. MulticallCall contractAddress ''balanceOf(address):(uint256)'' [a]) addresses) =
      Inr rs \<and>
    length rs = length addresses"
  let ?d = "\<lambda>balance. parseFloat (formatUnits balance 18)"
  let ?m = "collectBalances addresses ?d rs"
  have 1: "getErc20Balances methods multicallAll formatUnits parseFloat addresses rpc
      contractAddress = Inr ?m"
    using h by (simp add: getErc20Balances_def erc20CallData_with_call)
  have 2: "dom ?m = set addresses" using h by (simp add: dom_collectBalances)
  have 3: "\<forall>a\<in>set addresses. \<exists>j<length addresses. addresses ! j = a \<and>
              ?m a = Some (parseFloat (formatUnits (rs ! j) 18))"
    using h collectBalances_value [of rs addresses _ ?d] by blast
  from 1 2 3
  show "\<exists>m. getErc20Balances methods multicallAll formatUnits parseFloat addresses rpc
             contractAddress = Inr m \<and>
           dom m = set addresses \<and>
           (\<forall>a\<in>set addresses. \<exists>j<length addresses. addresses ! j = a \<and>
              m a = Some (parseFloat (formatUnits (rs ! j) 18)))"
    by blast
qed

theorem getErc20Balances_call_missing_witness:
  "getErc20Balances multicall3Methods multicallUp tally length [addr1, addr2] ''http://rpc''
     addr3 = Inl ''TypeError: multicallContract.call is not a function'' \<and>
   erc20CallData methodsWithCall addr3 [addr1, addr2] =
     Inr [MulticallCall addr3 ''balanceOf(address):(uint256)'' [addr1],
          MulticallCall addr3 ''balanceOf(address):(uint256)'' [addr2]] \<and>
   (\<exists>m. getErc20Balances methodsWithCall multicallUp tally length [addr1] ''http://rpc''
          addr3 = Inr m \<and>
        dom m = {addr1} \<and> m addr1 = Some 90)"
proof -
  have no: "''call'' \<notin> set multicall3Methods \<and> [addr1, addr2] \<noteq> []"
    by (simp add: multicall3Methods_def)
  have yes: "''call'' \<in> set methodsWithCall" by (simp add: methodsWithCall_def)
  have up: "''call'' \<in> set methodsWithCall \<and>
      multicallUp ''http://rpc'' 100
        (map (\<lambda>a. MulticallCall addr3 ''balanceOf(address):(uint256)'' [a]) [addr1]) =
        Inr [5] \<and>
      length [5 :: nat] = length [addr1]"
    by (simp add: methodsWithCall_def multicallUp_def upt_rec)
  have a: "getErc20Balances multicall3Methods multicallUp tally length [addr1, addr2]
      ''http://rpc'' addr3 = Inl ''TypeError: multicallContract.call is not a function''"
    by (rule getErc20Balances_call_missing
          [where methods = multicall3Methods and addresses = "[addr1, addr2]",
           THEN conjunct1, THEN mp, OF no])
  have "erc20CallData methodsWithCall addr3 [addr1, addr2] =
      Inr (map (\<lambda>a. MulticallCall addr3 ''balanceOf(address):(uint256)'' [a]) [addr1, addr2])"
    by (rule getErc20Balances_call_missing
          [where methods = methodsWithCall and addresses = "[addr1, addr2]"
             and contractAddress = addr3,
           THEN conjunct2, THEN conjunct1, THEN mp, OF yes])
  then have b: "erc20CallData methodsWithCall addr3 [addr1, addr2] =
     Inr [MulticallCall addr3 ''balanceOf(address):(uint256)'' [addr1],
          MulticallCall addr3 ''balanceOf(address):(uint256)'' [addr2]]"
    by simp
  from getErc20Balances_call_missing
         [where methods = methodsWithCall and addresses = "[addr1]" and contractAddress = addr3
            and multicallAll = multicallUp and rpc = "''http://rpc''" and rs = "[5]"
            and formatUnits = tally and parseFloat = length,
          THEN conjunct2, THEN conjunct2, THEN mp, OF up]
  obtain m where m1: "getErc20Balances methodsWithCall multicallUp tally length [addr1]
        ''http://rpc'' addr3 = Inr m"
    and m2: "dom m = set [addr1]"
    and m3: "\<forall>a\<in>set [addr1]. \<exists>j<length [addr1]. [addr1] ! j = a \<and>
          m a = Some (length (tally ([5] ! j) 18))"
    by blast
  from m3 have "m addr1 = Some 90" by (simp add: tally_def)
  with m1 m2 have c: "\<exists>m. getErc20Balances methodsWithCall multicallUp tally length [addr1]
        ''http://rpc'' addr3 = Inr m \<and> dom m = {addr1} \<and> m addr1 = Some 90"
    by simp
  from a b c show ?thesis by simp
qed

end
